theory Spec2Isabelle
  imports Main "HOL-Library.Sublist"
begin

section \<open>Text: Python strings as code-point lists\<close>

text \<open>
  A Python \<open>str\<close> is a sequence of Unicode code points, so a text is a list of code
  points (natural numbers); \<open>len\<close> is \<open>length\<close> and a slice \<open>t[a:b]\<close> with
  \<open>a \<le> b\<close> is \<open>take (b - a) (drop a t)\<close>.
\<close>

type_synonym ustr = "nat list"

text \<open>
  \<open>str.isspace\<close>, \<open>str.strip()\<close> and the regular-expression class \<open>\s\<close> use the
  same finite set of whitespace code points in CPython 3.
\<close>

definition isspace :: "nat \<Rightarrow> bool" where
  "isspace c \<longleftrightarrow>
     (9 \<le> c \<and> c \<le> 13) \<or> (28 \<le> c \<and> c \<le> 32) \<or> c = 133 \<or> c = 160 \<or> c = 5760 \<or>
     (8192 \<le> c \<and> c \<le> 8202) \<or> c = 8232 \<or> c = 8233 \<or> c = 8239 \<or> c = 8287 \<or>
     c = 12288"

definition strip :: "ustr \<Rightarrow> ustr" where
  "strip s = rev (dropWhile isspace (rev (dropWhile isspace s)))"

definition endswith :: "ustr \<Rightarrow> ustr \<Rightarrow> bool" where
  "endswith s suf \<longleftrightarrow> length suf \<le> length s \<and> drop (length s - length suf) s = suf"

definition startswith :: "ustr \<Rightarrow> ustr \<Rightarrow> bool" where
  "startswith s pre \<longleftrightarrow> take (length pre) s = pre"

text \<open>
  The classes \<open>\d\<close> and \<open>\w\<close> of a \<open>str\<close> pattern are read from the Unicode character
  database of the interpreter (decimal digits; alphanumerics and the underscore). The
  database is no part of the repository and is taken as a parameter.
\<close>

record ucd =
  decimal :: "nat \<Rightarrow> bool"
  alnum :: "nat \<Rightarrow> bool"

section \<open>The sentence terminator pattern\<close>

text \<open>
  \<open>sentence_end_pattern\<close> is
  \<^verbatim>\<open>(XYZ|\.[\s\n]|\?|!)["\'\'\'"]?(?=$|[\s\n])\<close>
  where \<open>XYZ\<close> stands for the three code points U+3002, U+FF1F, U+FF01 written one
  after the other (no brackets around them). The matcher below follows the
  backtracking order of the regular-expression engine: the alternatives of the group
  from left to right, the optional quotation mark greedily, then the lookahead.
\<close>

definition group1 :: "ustr \<Rightarrow> nat list" where
  "group1 s =
     (if take 3 s = [12290, 65311, 65281] then [3] else []) @
     (case s of c # d # _ \<Rightarrow> if c = 46 \<and> (isspace d \<or> d = 10) then [2] else [] | _ \<Rightarrow> []) @
     (case s of c # _ \<Rightarrow> if c = 63 then [1] else [] | _ \<Rightarrow> []) @
     (case s of c # _ \<Rightarrow> if c = 33 then [1] else [] | _ \<Rightarrow> [])"

definition opt_quote :: "ustr \<Rightarrow> nat list" where
  "opt_quote s = (case s of c # _ \<Rightarrow> if c = 34 \<or> c = 39 then [1, 0] else [0] | [] \<Rightarrow> [0])"

definition lookahead :: "ustr \<Rightarrow> bool" where
  "lookahead s \<longleftrightarrow>
     s = [] \<or> s = [10] \<or> (case s of c # _ \<Rightarrow> isspace c \<or> c = 10 | [] \<Rightarrow> False)"

definition match_ends :: "ustr \<Rightarrow> nat list" where
  "match_ends s =
     concat (map (\<lambda>a. concat (map (\<lambda>q. if lookahead (drop (a + q) s) then [a + q] else [])
                                   (opt_quote (drop a s))))
                 (group1 s))"

definition match_at :: "ustr \<Rightarrow> nat option" where
  "match_at s = (case match_ends s of [] \<Rightarrow> None | e # _ \<Rightarrow> Some e)"

text \<open>
  \<open>re.search(sentence_end_pattern, s)\<close>: the leftmost start position with a match;
  the value is \<open>match.end()\<close>, \<open>None\<close> when there is no match.
\<close>

fun search_end :: "ustr \<Rightarrow> nat option" where
  "search_end [] = match_at []"
| "search_end (c # cs) =
     (case match_at (c # cs) of
        Some e \<Rightarrow> Some e
      | None \<Rightarrow> map_option Suc (search_end cs))"

section \<open>The exclusion patterns\<close>

datatype cls = Lit nat | Digit | Word | Upper | Alpha

datatype item = One cls | Plus cls

fun in_cls :: "ucd \<Rightarrow> cls \<Rightarrow> nat \<Rightarrow> bool" where
  "in_cls U (Lit k) c \<longleftrightarrow> c = k"
| "in_cls U Digit c \<longleftrightarrow> decimal U c"
| "in_cls U Word c \<longleftrightarrow> alnum U c \<or> c = 95"
| "in_cls U Upper c \<longleftrightarrow> 65 \<le> c \<and> c \<le> 90"
| "in_cls U Alpha c \<longleftrightarrow> (65 \<le> c \<and> c \<le> 90) \<or> (97 \<le> c \<and> c \<le> 122)"

text \<open>Whether a pattern matches at the head of the text (\<open>x+\<close> is one or more).\<close>

fun matches :: "ucd \<Rightarrow> item list \<Rightarrow> ustr \<Rightarrow> bool" where
  "matches U [] s \<longleftrightarrow> True"
| "matches U (One k # r) [] \<longleftrightarrow> False"
| "matches U (One k # r) (x # xs) \<longleftrightarrow> in_cls U k x \<and> matches U r xs"
| "matches U (Plus k # r) [] \<longleftrightarrow> False"
| "matches U (Plus k # r) (x # xs) \<longleftrightarrow>
     in_cls U k x \<and> (matches U (Plus k # r) xs \<or> matches U r xs)"

text \<open>\<open>re.search(pattern, s)\<close> as a truth value: a match at some start position.\<close>

fun re_search :: "ucd \<Rightarrow> item list \<Rightarrow> ustr \<Rightarrow> bool" where
  "re_search U p [] \<longleftrightarrow> matches U p []"
| "re_search U p (x # xs) \<longleftrightarrow> matches U p (x # xs) \<or> re_search U p xs"

definition lits :: "ustr \<Rightarrow> item list" where
  "lits s = map (\<lambda>c. One (Lit c)) s"

text \<open>\<open>exclude_patterns\<close>, in the order of the source; 46 is the full stop.\<close>

definition exclude_patterns :: "item list list" where
  "exclude_patterns =
     [ [Plus Digit, One (Lit 46), Plus Digit],
       [One Alpha, One (Lit 46)],
       lits [68, 114, 46],
       lits [77, 114, 46],
       lits [77, 114, 115, 46],
       lits [77, 115, 46],
       lits [101, 116, 99, 46],
       lits [101, 46, 103, 46],
       lits [105, 46, 101, 46],
       lits [70, 105, 103, 46],
       lits [84, 97, 98, 46],
       lits [69, 113, 46],
       lits [82, 101, 102, 46],
       lits [86, 111, 108, 46],
       lits [78, 111, 46],
       lits [112, 46],
       lits [112, 112, 46],
       lits [101, 116, 32, 97, 108, 46],
       [Plus Word, One (Lit 46), Plus Word],
       [One Upper, One (Lit 46), One Upper],
       lits [80, 104, 46, 68],
       [Plus Digit, One (Lit 46)] ]"

definition matches_exclude :: "ucd \<Rightarrow> ustr \<Rightarrow> bool" where
  "matches_exclude U sentence \<longleftrightarrow> list_ex (\<lambda>p. re_search U p sentence) exclude_patterns"

text \<open>
  \<open>is_excluded\<close> as the loop over top-level paragraphs computes it (the length rule,
  then the patterns) and as the loop over table cells computes it (the patterns only).
\<close>

definition is_excluded_paragraph :: "ucd \<Rightarrow> ustr \<Rightarrow> bool" where
  "is_excluded_paragraph U sentence \<longleftrightarrow>
     (length sentence < 5 \<and> endswith sentence [46]) \<or> matches_exclude U sentence"

definition is_excluded_table :: "ucd \<Rightarrow> ustr \<Rightarrow> bool" where
  "is_excluded_table U sentence \<longleftrightarrow> matches_exclude U sentence"

section \<open>Segmenting one paragraph\<close>

text \<open>
  One candidate per iteration of the \<open>while\<close> loop, with what the loop does to it:
  \<open>Kept\<close> when it is appended to the sentence lists, \<open>Excluded\<close> when \<open>is_excluded\<close>
  is set, \<open>Blank\<close> when the stripped text is empty.
\<close>

datatype outcome = Kept | Excluded | Blank

record candidate =
  c_start :: nat
  c_end :: nat
  c_text :: ustr
  c_outcome :: outcome

lemma group1_pos: "a \<in> set (group1 s) \<Longrightarrow> 0 < a"
  unfolding group1_def by (auto split: list.splits if_splits)

lemma match_ends_pos: "e \<in> set (match_ends s) \<Longrightarrow> 0 < e"
  unfolding match_ends_def by (auto dest: group1_pos split: if_splits)

lemma match_at_pos: "match_at s = Some e \<Longrightarrow> 0 < e"
  unfolding match_at_def using match_ends_pos[of e s] by (cases "match_ends s") auto

lemma search_end_pos: "search_end s = Some e \<Longrightarrow> 0 < e"
proof (induction s arbitrary: e)
  case Nil
  then show ?case by (simp add: match_at_pos)
next
  case (Cons c cs)
  show ?case
  proof (cases "match_at (c # cs)")
    case None
    with Cons.prems show ?thesis by auto
  next
    case (Some a)
    with Cons.prems have "e = a" by simp
    with Some show ?thesis by (simp add: match_at_pos)
  qed
qed

text \<open>
  The \<open>while current_pos < len(text)\<close> loop of \<open>split_into_sentences\<close>. It is written
  twice in the source, for top-level paragraphs and for paragraphs of table cells; the
  two copies differ in how \<open>is_excluded\<close> is computed, which is the parameter \<open>excl\<close>.
  A match consumes at least one code point, so the cursor advances and the loop ends.
\<close>

function segment :: "(ustr \<Rightarrow> bool) \<Rightarrow> ustr \<Rightarrow> nat \<Rightarrow> candidate list" where
  "segment excl text current_pos =
     (if current_pos < length text then
        (case search_end (drop current_pos text) of
           Some e \<Rightarrow>
             (let end_pos = current_pos + e;
                  sentence = strip (take (end_pos - current_pos) (drop current_pos text))
              in \<lparr>c_start = current_pos, c_end = end_pos, c_text = sentence,
                   c_outcome = (if excl sentence then Excluded
                                else if sentence = [] then Blank else Kept)\<rparr>
                 # segment excl text end_pos)
         | None \<Rightarrow>
             (let sentence = strip (drop current_pos text)
              in [\<lparr>c_start = current_pos, c_end = length text, c_text = sentence,
                    c_outcome = (if sentence = [] then Blank else Kept)\<rparr>]))
      else [])"
  by pat_completeness auto
termination
proof (relation "measure (\<lambda>(excl, text, current_pos). length text - current_pos)")
  show "wf (measure (\<lambda>(excl, text, current_pos). length text - current_pos))" by simp
next
  fix excl :: "ustr \<Rightarrow> bool" and t :: ustr and cur e end_pos :: nat
  assume "cur < length t" and "search_end (drop cur t) = Some e" and "end_pos = cur + e"
  then show "((excl, t, end_pos), (excl, t, cur))
      \<in> measure (\<lambda>(excl, text, current_pos). length text - current_pos)"
    using search_end_pos[of "drop cur t" e] by simp
qed

declare segment.simps [simp del]

section \<open>The document and the sentence catalog\<close>

text \<open>
  The document as the library presents it: a paragraph is a list of runs and its
  \<open>text\<close> is the concatenation of the runs' texts; the document has its top-level
  paragraphs and its tables, a table has rows, a row cells, a cell paragraphs.
\<close>

record run =
  r_text :: ustr
  r_color :: "(nat \<times> nat \<times> nat) option"
  r_bold :: "bool option"
  r_italic :: "bool option"

type_synonym para = "run list"

definition para_text :: "para \<Rightarrow> ustr" where
  "para_text p = concat (map r_text p)"

definition plain :: "ustr \<Rightarrow> run" where
  "plain t = \<lparr>r_text = t, r_color = None, r_bold = None, r_italic = None\<rparr>"

type_synonym cell = "para list"
type_synonym row = "cell list"
type_synonym table = "row list"

record document =
  paragraphs :: "para list"
  tables :: "table list"

text \<open>An entry of \<open>sentence_positions\<close>: the dictionary with its \<open>type\<close> and indices.\<close>

datatype locator = InParagraph nat | InTable nat nat nat nat

record position =
  p_loc :: locator
  p_start :: nat
  p_end :: nat
  p_text :: ustr

record processor =
  file_path :: "ustr option"
  document :: "document option"
  sentences :: "ustr list"
  sentence_positions :: "position list"

text \<open>The appends of one run of the \<open>while\<close> loop, candidate by candidate.\<close>

fun append_kept :: "locator \<Rightarrow> candidate list \<Rightarrow> processor \<Rightarrow> processor" where
  "append_kept l [] st = st"
| "append_kept l (c # cs) st =
     append_kept l cs
       (if c_outcome c = Kept then
          st\<lparr>sentences := sentences st @ [c_text c],
             sentence_positions := sentence_positions st @
               [\<lparr>p_loc = l, p_start = c_start c, p_end = c_end c, p_text = c_text c\<rparr>]\<rparr>
        else st)"

fun paragraphs_loop :: "ucd \<Rightarrow> nat \<Rightarrow> para list \<Rightarrow> processor \<Rightarrow> processor" where
  "paragraphs_loop U para_index [] st = st"
| "paragraphs_loop U para_index (paragraph # rest) st =
     paragraphs_loop U (Suc para_index) rest
       (if strip (para_text paragraph) = [] then st
        else append_kept (InParagraph para_index)
               (segment (is_excluded_paragraph U) (para_text paragraph) 0) st)"

fun cell_paragraphs_loop ::
  "ucd \<Rightarrow> nat \<Rightarrow> nat \<Rightarrow> nat \<Rightarrow> nat \<Rightarrow> para list \<Rightarrow> processor \<Rightarrow> processor" where
  "cell_paragraphs_loop U table_index row_index cell_index para_index [] st = st"
| "cell_paragraphs_loop U table_index row_index cell_index para_index (paragraph # rest) st =
     cell_paragraphs_loop U table_index row_index cell_index (Suc para_index) rest
       (if strip (para_text paragraph) = [] then st
        else append_kept (InTable table_index row_index cell_index para_index)
               (segment (is_excluded_table U) (para_text paragraph) 0) st)"

fun cells_loop :: "ucd \<Rightarrow> nat \<Rightarrow> nat \<Rightarrow> nat \<Rightarrow> cell list \<Rightarrow> processor \<Rightarrow> processor" where
  "cells_loop U table_index row_index cell_index [] st = st"
| "cells_loop U table_index row_index cell_index (cell # rest) st =
     cells_loop U table_index row_index (Suc cell_index) rest
       (cell_paragraphs_loop U table_index row_index cell_index 0 cell st)"

fun rows_loop :: "ucd \<Rightarrow> nat \<Rightarrow> nat \<Rightarrow> row list \<Rightarrow> processor \<Rightarrow> processor" where
  "rows_loop U table_index row_index [] st = st"
| "rows_loop U table_index row_index (row # rest) st =
     rows_loop U table_index (Suc row_index) rest (cells_loop U table_index row_index 0 row st)"

fun tables_loop :: "ucd \<Rightarrow> nat \<Rightarrow> table list \<Rightarrow> processor \<Rightarrow> processor" where
  "tables_loop U table_index [] st = st"
| "tables_loop U table_index (table # rest) st =
     tables_loop U (Suc table_index) rest (rows_loop U table_index 0 table st)"

text \<open>\<open>DocProcessor.split_into_sentences\<close>: the returned list and the new state.\<close>

definition split_into_sentences :: "ucd \<Rightarrow> processor \<Rightarrow> ustr list \<times> processor" where
  "split_into_sentences U st =
     (case document st of
        None \<Rightarrow> ([], st)
      | Some doc \<Rightarrow>
          (let st1 = st\<lparr>sentences := [], sentence_positions := []\<rparr>;
               st2 = paragraphs_loop U 0 (paragraphs doc) st1;
               st3 = tables_loop U 0 (tables doc) st2
           in (sentences st3, st3)))"

section \<open>Annotating a sentence\<close>

text \<open>
  Indexing a Python list: an index from \<open>-len\<close> to \<open>-1\<close> counts from the end, anything
  outside \<open>-len \<dots> len - 1\<close> raises \<open>IndexError\<close>.
\<close>

datatype py_error = IndexError | KeyError | TypeError

definition py_index :: "'a list \<Rightarrow> int \<Rightarrow> py_error + 'a" where
  "py_index xs i =
     (if 0 \<le> i \<and> i < int (length xs) then Inr (xs ! nat i)
      else if i < 0 \<and> - int (length xs) \<le> i then Inr (xs ! nat (int (length xs) + i))
      else Inl IndexError)"

text \<open>
  \<open>_add_comment_to_paragraph\<close>: the text of the paragraph is read, every run is removed,
  and three runs are added: the text, a space, and the suggestion (the comment between
  the bracketed label of the source and a closing bracket) in blue, bold and italic.
  The positions \<open>start\<close> and \<open>end\<close> are passed and not used. A run added with a text
  reads back with that text.
\<close>

definition suggestion :: "ustr \<Rightarrow> ustr" where
  "suggestion comment_text = [91, 26657, 23545, 24314, 35758, 58, 32] @ comment_text @ [93]"

definition add_comment_to_paragraph :: "para \<Rightarrow> nat \<Rightarrow> nat \<Rightarrow> ustr \<Rightarrow> para" where
  "add_comment_to_paragraph paragraph start end_pos comment_text =
     (let text = para_text paragraph;
          cleared = [] :: para
      in cleared @ [plain text] @ [plain [32]] @
         [\<lparr>r_text = suggestion comment_text, r_color = Some (0, 0, 255),
           r_bold = Some True, r_italic = Some True\<rparr>])"

text \<open>
  The paragraph a position points to, found by the index chain of \<open>add_comment\<close>
  (\<open>document.paragraphs[k]\<close>, or \<open>document.tables[t].rows[r].cells[c].paragraphs[k]\<close>),
  and the document after that paragraph object was changed in place. Cells are taken
  as distinct objects (no merged cells).
\<close>

definition lookup_paragraph :: "document \<Rightarrow> locator \<Rightarrow> py_error + para" where
  "lookup_paragraph doc l =
     (case l of
        InParagraph k \<Rightarrow> py_index (paragraphs doc) (int k)
      | InTable t r c k \<Rightarrow>
          (case py_index (tables doc) (int t) of
             Inl err \<Rightarrow> Inl err
           | Inr tb \<Rightarrow>
               (case py_index tb (int r) of
                  Inl err \<Rightarrow> Inl err
                | Inr rw \<Rightarrow>
                    (case py_index rw (int c) of
                       Inl err \<Rightarrow> Inl err
                     | Inr cl \<Rightarrow> py_index cl (int k)))))"

definition store_paragraph :: "document \<Rightarrow> locator \<Rightarrow> para \<Rightarrow> document" where
  "store_paragraph doc l p =
     (case l of
        InParagraph k \<Rightarrow> doc\<lparr>paragraphs := (paragraphs doc)[k := p]\<rparr>
      | InTable t r c k \<Rightarrow>
          doc\<lparr>tables := (tables doc)[t := (tables doc ! t)[r := (tables doc ! t ! r)
                   [c := (tables doc ! t ! r ! c)[k := p]]]]\<rparr>)"

text \<open>
  \<open>DocProcessor.add_comment\<close>: the result and the new state. Every exception inside the
  \<open>try\<close> block ends in \<open>return False\<close>; the last index operation is the one of the log
  line that reads \<open>self.sentences[sentence_index]\<close>, after the paragraph was changed.
\<close>

definition add_comment :: "processor \<Rightarrow> int \<Rightarrow> ustr \<Rightarrow> bool \<times> processor" where
  "add_comment st sentence_index comment_text =
     (case document st of
        None \<Rightarrow> (False, st)
      | Some doc \<Rightarrow>
          if sentence_index \<ge> int (length (sentence_positions st)) then (False, st)
          else
            (case py_index (sentence_positions st) sentence_index of
               Inl err \<Rightarrow> (False, st)
             | Inr position \<Rightarrow>
                 (case lookup_paragraph doc (p_loc position) of
                    Inl err \<Rightarrow> (False, st)
                  | Inr paragraph \<Rightarrow>
                      (let st' = st\<lparr>document := Some (store_paragraph doc (p_loc position)
                                   (add_comment_to_paragraph paragraph (p_start position)
                                      (p_end position) comment_text))\<rparr>
                       in case py_index (sentences st) sentence_index of
                            Inl err \<Rightarrow> (False, st')
                          | Inr s \<Rightarrow> (True, st')))))"

section \<open>Storage: paths, loading and saving\<close>

text \<open>
  The path functions of \<open>os.path\<close> as \<open>posixpath\<close> defines them, with 47 the slash
  and 46 the dot. \<open>rfind\<close> is \<open>str.rfind\<close> for a single character: the last index
  of the character, \<open>-1\<close> when it does not occur.
\<close>

definition rfind :: "ustr \<Rightarrow> nat \<Rightarrow> int" where
  "rfind s c =
     (if c \<in> set s then int (length s) - 1 - int (length (takeWhile (\<lambda>x. x \<noteq> c) (rev s)))
      else - 1)"

definition rstrip_char :: "nat \<Rightarrow> ustr \<Rightarrow> ustr" where
  "rstrip_char c s = rev (dropWhile (\<lambda>x. x = c) (rev s))"

definition dirname :: "ustr \<Rightarrow> ustr" where
  "dirname p =
     (let i = nat (rfind p 47 + 1);
          head = take i p
      in if head \<noteq> [] \<and> head \<noteq> replicate (length head) 47 then rstrip_char 47 head
         else head)"

definition basename :: "ustr \<Rightarrow> ustr" where
  "basename p = (let i = nat (rfind p 47 + 1) in drop i p)"

definition splitext :: "ustr \<Rightarrow> ustr \<times> ustr" where
  "splitext p =
     (let sepIndex = rfind p 47;
          dotIndex = rfind p 46
      in if dotIndex > sepIndex \<and>
            list_ex (\<lambda>x. x \<noteq> 46) (take (nat (dotIndex - (sepIndex + 1))) (drop (nat (sepIndex + 1)) p))
         then (take (nat dotIndex) p, drop (nat dotIndex) p)
         else (p, []))"

definition join :: "ustr \<Rightarrow> ustr \<Rightarrow> ustr" where
  "join a b =
     (if startswith b [47] then b
      else if a = [] \<or> endswith a [47] then a @ b
      else a @ [47] @ b)"

text \<open>
  The clock: \<open>datetime.datetime.now()\<close> and its \<open>strftime("%Y%m%d%H%M%S")\<close>, for the
  four-digit years a running clock gives.
\<close>

record datetime =
  year :: nat
  month :: nat
  day :: nat
  hour :: nat
  minute :: nat
  second :: nat

definition digit :: "nat \<Rightarrow> nat" where
  "digit n = 48 + n mod 10"

definition digits2 :: "nat \<Rightarrow> ustr" where
  "digits2 n = [digit (n div 10), digit n]"

definition digits4 :: "nat \<Rightarrow> ustr" where
  "digits4 n = [digit (n div 1000), digit (n div 100), digit (n div 10), digit n]"

definition strftime :: "datetime \<Rightarrow> ustr" where
  "strftime t =
     digits4 (year t) @ digits2 (month t) @ digits2 (day t) @
     digits2 (hour t) @ digits2 (minute t) @ digits2 (second t)"

text \<open>
  What a run takes from outside the program: opening and saving a document file
  (\<open>None\<close> and \<open>False\<close> when the library raises), the file system, the clock.
\<close>

record storage =
  doc_open :: "ustr \<Rightarrow> document option"
  doc_save :: "document \<Rightarrow> ustr \<Rightarrow> bool"
  path_exists :: "ustr \<Rightarrow> bool"
  now :: datetime

text \<open>The marker of the source that goes between name and extension.\<close>

definition ai_suffix :: ustr where
  "ai_suffix = [95, 65, 73, 26657, 23545]"

text \<open>
  \<open>DocProcessor.__init__\<close> and \<open>load_document\<close>. An empty path counts as no path.
\<close>

definition init_processor :: "ustr option \<Rightarrow> processor" where
  "init_processor path =
     \<lparr>file_path = path, document = None, sentences = [], sentence_positions = []\<rparr>"

definition truthy_path :: "ustr option \<Rightarrow> bool" where
  "truthy_path path \<longleftrightarrow> (case path of None \<Rightarrow> False | Some p \<Rightarrow> p \<noteq> [])"

definition load_document :: "storage \<Rightarrow> ustr option \<Rightarrow> processor \<Rightarrow> bool \<times> processor" where
  "load_document env path st =
     (let st1 = (if truthy_path path then st\<lparr>file_path := path\<rparr> else st)
      in if \<not> truthy_path (file_path st1) then (False, st1)
         else (case doc_open env (the (file_path st1)) of
                 Some d \<Rightarrow> (True, st1\<lparr>document := Some d\<rparr>)
               | None \<Rightarrow> (False, st1)))"

text \<open>
  \<open>DocProcessor.save_document\<close>. The message of a failure is kept as its kind. The
  path functions raise on a missing \<open>file_path\<close>, which the handler turns into a
  failed save.
\<close>

datatype save_failure = NotLoaded | SaveFailed

definition default_output_path :: "storage \<Rightarrow> ustr \<Rightarrow> ustr" where
  "default_output_path env path =
     (let file_dir = dirname path;
          file_name = basename path;
          (name, ext) = splitext file_name;
          output_path = join file_dir (name @ ai_suffix @ ext)
      in if path_exists env output_path
         then join file_dir (name @ ai_suffix @ [95] @ strftime (now env) @ ext)
         else output_path)"

definition save_document :: "storage \<Rightarrow> ustr option \<Rightarrow> processor \<Rightarrow> save_failure + ustr" where
  "save_document env output_path st =
     (case document st of
        None \<Rightarrow> Inl NotLoaded
      | Some doc \<Rightarrow>
          (case (case output_path of
                   Some p \<Rightarrow> Some p
                 | None \<Rightarrow> map_option (default_output_path env) (file_path st)) of
             None \<Rightarrow> Inl SaveFailed
           | Some p \<Rightarrow> if doc_save env doc p then Inr p else Inl SaveFailed))"

section \<open>The classification client\<close>

text \<open>
  A value as \<open>json.loads\<close> and \<open>response.json()\<close> give it. An object is a dictionary
  with string keys, kept as an association list read by \<open>map_of\<close>; the value of a
  number plays no role here and is kept as an integer.
\<close>

datatype json = JNull | JBool bool | JNum int | JStr ustr | JArr "json list"
  | JObj "(ustr \<times> json) list"

text \<open>\<open>sub in s\<close> for two strings: \<open>sub\<close> occurs in \<open>s\<close> as a contiguous part.\<close>

fun contains :: "ustr \<Rightarrow> ustr \<Rightarrow> bool" where
  "contains sub [] \<longleftrightarrow> sub = []"
| "contains sub (c # cs) \<longleftrightarrow> startswith (c # cs) sub \<or> contains sub cs"

text \<open>
  The operators the code applies to such a value, with the exception each raises on
  a value of the wrong type: \<open>key in v\<close>, \<open>len(v)\<close>, \<open>v[key]\<close> for a string key,
  \<open>v[0]\<close>, and the truth value of \<open>v\<close> in a condition.
\<close>

definition py_in :: "ustr \<Rightarrow> json \<Rightarrow> py_error + bool" where
  "py_in key v =
     (case v of
        JObj kvs \<Rightarrow> Inr (map_of kvs key \<noteq> None)
      | JArr xs \<Rightarrow> Inr (JStr key \<in> set xs)
      | JStr s \<Rightarrow> Inr (contains key s)
      | _ \<Rightarrow> Inl TypeError)"

definition py_len :: "json \<Rightarrow> py_error + nat" where
  "py_len v =
     (case v of
        JObj kvs \<Rightarrow> Inr (length (remdups (map fst kvs)))
      | JArr xs \<Rightarrow> Inr (length xs)
      | JStr s \<Rightarrow> Inr (length s)
      | _ \<Rightarrow> Inl TypeError)"

definition py_getitem :: "json \<Rightarrow> ustr \<Rightarrow> py_error + json" where
  "py_getitem v key =
     (case v of
        JObj kvs \<Rightarrow> (case map_of kvs key of Some x \<Rightarrow> Inr x | None \<Rightarrow> Inl KeyError)
      | _ \<Rightarrow> Inl TypeError)"

definition py_first :: "json \<Rightarrow> py_error + json" where
  "py_first v =
     (case v of
        JArr xs \<Rightarrow> py_index xs 0
      | JStr s \<Rightarrow> (case s of [] \<Rightarrow> Inl IndexError | c # _ \<Rightarrow> Inr (JStr [c]))
      | JObj kvs \<Rightarrow> Inl KeyError
      | _ \<Rightarrow> Inl TypeError)"

definition truthy :: "json \<Rightarrow> bool" where
  "truthy v =
     (case v of
        JNull \<Rightarrow> False
      | JBool b \<Rightarrow> b
      | JNum n \<Rightarrow> n \<noteq> 0
      | JStr s \<Rightarrow> s \<noteq> []
      | JArr xs \<Rightarrow> xs \<noteq> []
      | JObj kvs \<Rightarrow> kvs \<noteq> [])"

text \<open>
  What \<open>requests.post\<close> gives for one call: an exception, or a response with its
  status code and the value of \<open>response.json()\<close> (\<open>None\<close> when that raises).
\<close>

datatype http_result = Raised | Response int "json option"

text \<open>
  The failures of \<open>proofread_sentence\<close>, one per \<open>return False, ...\<close> of the source;
  \<open>ExceptionRaised\<close> is the handler at the end of the function.
\<close>

datatype classify_failure =
  EmptySentence | RequestFailed int | NoContent | NotJson | BadFormat | ExceptionRaised

text \<open>\<open>str.split\<close> with a run of three backquotes (code point 96) as separator.\<close>

fun split_fence :: "ustr \<Rightarrow> ustr \<Rightarrow> ustr list" where
  "split_fence acc (a # b # c # rest) =
     (if a = 96 \<and> b = 96 \<and> c = 96 then rev acc # split_fence [] rest
      else split_fence (a # acc) (b # c # rest))"
| "split_fence acc (a # cs) = split_fence (a # acc) cs"
| "split_fence acc [] = [rev acc]"

text \<open>
  The condition \<open>'choices' in response_data and len(response_data['choices']) > 0\<close> and
  the chain \<open>response_data['choices'][0]['message']['content']\<close>.
\<close>

definition has_choices :: "json \<Rightarrow> py_error + bool" where
  "has_choices response_data =
     (case py_in [99, 104, 111, 105, 99, 101, 115] response_data of
        Inl err \<Rightarrow> Inl err
      | Inr False \<Rightarrow> Inr False
      | Inr True \<Rightarrow>
          (case py_getitem response_data [99, 104, 111, 105, 99, 101, 115] of
             Inl err \<Rightarrow> Inl err
           | Inr choices \<Rightarrow>
               (case py_len choices of Inl err \<Rightarrow> Inl err | Inr n \<Rightarrow> Inr (n > 0))))"

definition extract_content :: "json \<Rightarrow> py_error + json" where
  "extract_content response_data =
     (case py_getitem response_data [99, 104, 111, 105, 99, 101, 115] of
        Inl err \<Rightarrow> Inl err
      | Inr choices \<Rightarrow>
          (case py_first choices of
             Inl err \<Rightarrow> Inl err
           | Inr choice \<Rightarrow>
               (case py_getitem choice [109, 101, 115, 115, 97, 103, 101] of
                  Inl err \<Rightarrow> Inl err
                | Inr message \<Rightarrow> py_getitem message [99, 111, 110, 116, 101, 110, 116])))"

text \<open>
  The inner \<open>try\<close> block up to \<open>json.loads\<close>: a fenced code block is unwrapped, a
  leading \<open>json\<close> dropped; \<open>loads\<close> is \<open>json.loads\<close>, \<open>None\<close> for a decode error.
\<close>

definition parse_content :: "(ustr \<Rightarrow> json option) \<Rightarrow> ustr \<Rightarrow> json option" where
  "parse_content loads content =
     (if startswith (strip content) [96, 96, 96] \<and> contains [96, 96, 96] (drop 3 (strip content))
      then
        (let content_parts = split_fence [] (strip content)
         in if length content_parts \<ge> 3 then
              (let json_content = content_parts ! 1
               in if startswith json_content [106, 115, 111, 110]
                  then loads (strip (drop 4 json_content))
                  else loads (strip json_content))
            else loads content)
      else loads content)"

text \<open>
  \<open>all(key in result for key in [...])\<close> over the four required keys, from left to
  right, stopping at the first key that is not found.
\<close>

definition required_keys :: "ustr list" where
  "required_keys =
     [[99, 111, 110, 116, 101, 110, 116, 95, 48], [119, 114, 111, 110, 103],
      [97, 110, 110, 111, 116, 97, 116, 105, 111, 110],
      [99, 111, 110, 116, 101, 110, 116, 95, 49]]"

fun all_in :: "ustr list \<Rightarrow> json \<Rightarrow> py_error + bool" where
  "all_in [] v = Inr True"
| "all_in (k # ks) v =
     (case py_in k v of
        Inl err \<Rightarrow> Inl err
      | Inr False \<Rightarrow> Inr False
      | Inr True \<Rightarrow> all_in ks v)"

text \<open>\<open>ApiClient.proofread_sentence\<close>, given what the request of this call gives.\<close>

definition proofread_sentence ::
  "(ustr \<Rightarrow> json option) \<Rightarrow> http_result \<Rightarrow> ustr \<Rightarrow> classify_failure + json" where
  "proofread_sentence loads response sentence =
     (if strip sentence = [] then Inl EmptySentence
      else
        (case response of
           Raised \<Rightarrow> Inl ExceptionRaised
         | Response status_code body \<Rightarrow>
             if status_code \<noteq> 200 then Inl (RequestFailed status_code)
             else
               (case body of
                  None \<Rightarrow> Inl ExceptionRaised
                | Some response_data \<Rightarrow>
                    (case has_choices response_data of
                       Inl err \<Rightarrow> Inl ExceptionRaised
                     | Inr False \<Rightarrow> Inl NoContent
                     | Inr True \<Rightarrow>
                         (case extract_content response_data of
                            Inl err \<Rightarrow> Inl ExceptionRaised
                          | Inr (JStr content) \<Rightarrow>
                              (case parse_content loads content of
                                 None \<Rightarrow> Inl NotJson
                               | Some result \<Rightarrow>
                                   (case all_in required_keys result of
                                      Inl err \<Rightarrow> Inl ExceptionRaised
                                    | Inr True \<Rightarrow> Inr result
                                    | Inr False \<Rightarrow> Inl BadFormat))
                          | Inr other \<Rightarrow> Inl ExceptionRaised)))))"

section \<open>The proofreading run\<close>

text \<open>
  \<open>ProofreadWorker.run\<close>. What the run takes from outside: the storage, the character
  database, \<open>json.loads\<close>, the answer of the service to the request number \<open>i\<close> for a
  sentence, the text an f-string gives for a value that is no string, and the value of
  the flag \<open>is_running\<close> when iteration \<open>i\<close> reads it.
\<close>

record world =
  w_store :: storage
  w_ucd :: ucd
  w_loads :: "ustr \<Rightarrow> json option"
  w_api :: "nat \<Rightarrow> ustr \<Rightarrow> http_result"
  w_fmt :: "json \<Rightarrow> ustr"
  w_running :: "nat \<Rightarrow> bool"

text \<open>
  What the run lets be seen, in order: the signals \<open>progressUpdated\<close>, \<open>logUpdated\<close>
  (one entry per kind of log text) and \<open>finished\<close>, and each call of
  \<open>proofread_sentence\<close>. \<open>Crashed\<close> is the handler around the whole run.
\<close>

datatype run_failure = LoadFailed | NoSentences | Stopped | SaveError save_failure | Crashed

datatype event =
  Progress nat nat | Classify ustr | LogSentence ustr bool | LogError ustr classify_failure
  | LogSummary ustr | Finished "run_failure + ustr"

datatype loop_exit = Completed | Halted run_failure

definition comment_text_of :: "world \<Rightarrow> json \<Rightarrow> ustr" where
  "comment_text_of w a = (case a of JStr s \<Rightarrow> s | _ \<Rightarrow> w_fmt w a)"

fun proofread_loop ::
  "world \<Rightarrow> nat \<Rightarrow> nat \<Rightarrow> ustr list \<Rightarrow> processor \<Rightarrow> event list
     \<Rightarrow> loop_exit \<times> processor \<times> event list" where
  "proofread_loop w tot i [] st tr = (Completed, st, tr)"
| "proofread_loop w tot i (sentence # rest) st tr =
     (if \<not> w_running w i then (Halted Stopped, st, tr)
      else
        (let tr1 = tr @ [Progress (i + 1) tot, Classify sentence]
         in case proofread_sentence (w_loads w) (w_api w i sentence) sentence of
              Inl failure \<Rightarrow>
                proofread_loop w tot (Suc i) rest st (tr1 @ [LogError sentence failure])
            | Inr result \<Rightarrow>
                (case py_getitem result [119, 114, 111, 110, 103] of
                   Inl err \<Rightarrow> (Halted Crashed, st, tr1)
                 | Inr wrong \<Rightarrow>
                     if truthy wrong then
                       (case py_getitem result [97, 110, 110, 111, 116, 97, 116, 105, 111, 110] of
                          Inl err \<Rightarrow> (Halted Crashed, st, tr1)
                        | Inr annotation \<Rightarrow>
                            proofread_loop w tot (Suc i) rest
                              (snd (add_comment st (int i) (comment_text_of w annotation)))
                              (tr1 @ [LogSentence sentence True]))
                     else
                       proofread_loop w tot (Suc i) rest st
                         (tr1 @ [LogSentence sentence False]))))"

definition run :: "world \<Rightarrow> ustr \<Rightarrow> event list \<times> processor" where
  "run w path =
     (case load_document (w_store w) None (init_processor (Some path)) of
        (False, st1) \<Rightarrow> ([Finished (Inl LoadFailed)], st1)
      | (True, st1) \<Rightarrow>
          (case split_into_sentences (w_ucd w) st1 of
             (sents, st2) \<Rightarrow>
               if sents = [] then ([Finished (Inl NoSentences)], st2)
               else
                 (case proofread_loop w (length sents) 0 sents st2 [] of
                    (Halted failure, st3, tr) \<Rightarrow> (tr @ [Finished (Inl failure)], st3)
                  | (Completed, st3, tr) \<Rightarrow>
                      (case save_document (w_store w) None st3 of
                         Inr save_path \<Rightarrow>
                           (tr @ [LogSummary save_path, Finished (Inr save_path)], st3)
                       | Inl failure \<Rightarrow> (tr @ [Finished (Inl (SaveError failure))], st3)))))"

section \<open>Auxiliary definitions for the statements\<close>

definition one_paragraph :: "ustr \<Rightarrow> document" where
  "one_paragraph t = \<lparr>paragraphs = [[plain t]], tables = []\<rparr>"

definition ascii_ucd :: ucd where
  "ascii_ucd = \<lparr>decimal = (\<lambda>c. 48 \<le> c \<and> c \<le> 57),
                 alnum = (\<lambda>c. (48 \<le> c \<and> c \<le> 57) \<or> (65 \<le> c \<and> c \<le> 90) \<or> (97 \<le> c \<and> c \<le> 122))\<rparr>"

fun tiles :: "nat \<Rightarrow> nat \<Rightarrow> candidate list \<Rightarrow> bool" where
  "tiles a b [] \<longleftrightarrow> a = b"
| "tiles a b (c # cs) \<longleftrightarrow> c_start c = a \<and> a < c_end c \<and> tiles (c_end c) b cs"

definition loaded :: "document \<Rightarrow> processor" where
  "loaded d = \<lparr>file_path = Some [100, 46, 100, 111, 99, 120], document = Some d,
               sentences = [], sentence_positions = []\<rparr>"

definition text_price :: ustr where
  "text_price = [20215, 26684, 26159, 51, 46, 49, 52, 20803, 12290]"

definition text_dr :: ustr where
  "text_dr = [68, 114, 46, 32, 83, 109, 105, 116, 104, 32, 97, 114, 114, 105, 118, 101, 100, 46]"

definition one_cell_table :: "ustr \<Rightarrow> document" where
  "one_cell_table t = \<lparr>paragraphs = [], tables = [[[[[plain t]]]]]\<rparr>"

definition kept_positions :: "locator \<Rightarrow> candidate list \<Rightarrow> position list" where
  "kept_positions l cs =
     map (\<lambda>c. \<lparr>p_loc = l, p_start = c_start c, p_end = c_end c, p_text = c_text c\<rparr>)
         (filter (\<lambda>c. c_outcome c = Kept) cs)"

definition paragraph_records :: "ucd \<Rightarrow> nat \<Rightarrow> para \<Rightarrow> position list" where
  "paragraph_records U i p =
     (if strip (para_text p) = [] then []
      else kept_positions (InParagraph i) (segment (is_excluded_paragraph U) (para_text p) 0))"

definition cell_paragraph_records ::
  "ucd \<Rightarrow> nat \<Rightarrow> nat \<Rightarrow> nat \<Rightarrow> nat \<Rightarrow> para \<Rightarrow> position list" where
  "cell_paragraph_records U t r c k p =
     (if strip (para_text p) = [] then []
      else kept_positions (InTable t r c k) (segment (is_excluded_table U) (para_text p) 0))"

definition cell_records :: "ucd \<Rightarrow> nat \<Rightarrow> nat \<Rightarrow> nat \<Rightarrow> cell \<Rightarrow> position list" where
  "cell_records U t r c cl =
     concat (map (\<lambda>(k, p). cell_paragraph_records U t r c k p) (enumerate 0 cl))"

definition row_records :: "ucd \<Rightarrow> nat \<Rightarrow> nat \<Rightarrow> row \<Rightarrow> position list" where
  "row_records U t r rw = concat (map (\<lambda>(c, cl). cell_records U t r c cl) (enumerate 0 rw))"

definition table_records :: "ucd \<Rightarrow> nat \<Rightarrow> table \<Rightarrow> position list" where
  "table_records U t tb = concat (map (\<lambda>(r, rw). row_records U t r rw) (enumerate 0 tb))"

definition document_records :: "ucd \<Rightarrow> document \<Rightarrow> position list" where
  "document_records U doc =
     concat (map (\<lambda>(i, p). paragraph_records U i p) (enumerate 0 (paragraphs doc))) @
     concat (map (\<lambda>(t, tb). table_records U t tb) (enumerate 0 (tables doc)))"

definition text_hi_yo :: ustr where
  "text_hi_yo = [72, 105, 33, 32, 89, 111, 33]"

definition catalog_hi_yo :: processor where
  "catalog_hi_yo = snd (split_into_sentences ascii_ucd (loaded (one_paragraph text_hi_yo)))"

definition storage_example :: "bool \<Rightarrow> storage" where
  "storage_example taken =
     \<lparr>doc_open = (\<lambda>p. None), doc_save = (\<lambda>d p. True), path_exists = (\<lambda>p. taken),
      now = \<lparr>year = 2025, month = 3, day = 9, hour = 14, minute = 5, second = 7\<rparr>\<rparr>"

definition array_reply :: json where
  "array_reply = JArr (map JStr required_keys)"

definition array_content :: ustr where
  "array_content =
     [91, 34, 99, 111, 110, 116, 101, 110, 116, 95, 48, 34, 44, 34, 119, 114, 111, 110, 103,
      34, 44, 34, 97, 110, 110, 111, 116, 97, 116, 105, 111, 110, 34, 44, 34, 99, 111, 110,
      116, 101, 110, 116, 95, 49, 34, 93]"

definition array_response :: http_result where
  "array_response =
     Response 200 (Some (JObj [([99, 104, 111, 105, 99, 101, 115],
        JArr [JObj [([109, 101, 115, 115, 97, 103, 101],
          JObj [([99, 111, 110, 116, 101, 110, 116], JStr array_content)])]])]))"

definition array_loads :: "ustr \<Rightarrow> json option" where
  "array_loads s = (if s = array_content then Some array_reply else None)"



section \<open>Facts about the segmentation loop\<close>

lemma segment_done: "\<not> current_pos < length text \<Longrightarrow> segment excl text current_pos = []"
  by (subst segment.simps) simp

lemma segment_last:
  "current_pos < length text \<Longrightarrow> search_end (drop current_pos text) = None \<Longrightarrow>
   segment excl text current_pos =
     [\<lparr>c_start = current_pos, c_end = length text, c_text = strip (drop current_pos text),
       c_outcome = (if strip (drop current_pos text) = [] then Blank else Kept)\<rparr>]"
  by (subst segment.simps) (simp add: Let_def)

lemma segment_step:
  "current_pos < length text \<Longrightarrow> search_end (drop current_pos text) = Some e \<Longrightarrow>
   segment excl text current_pos =
     \<lparr>c_start = current_pos, c_end = current_pos + e,
      c_text = strip (take e (drop current_pos text)),
      c_outcome = (if excl (strip (take e (drop current_pos text))) then Excluded
                   else if strip (take e (drop current_pos text)) = [] then Blank else Kept)\<rparr>
     # segment excl text (current_pos + e)"
  by (subst segment.simps) (simp add: Let_def)

lemmas pattern_defs =
  match_at_def match_ends_def group1_def opt_quote_def lookahead_def strip_def isspace_def


lemma group1_le: "a \<in> set (group1 s) \<Longrightarrow> a \<le> length s"
  unfolding group1_def
  by (cases s; cases "tl s"; cases "tl (tl s)") (auto split: if_splits)

lemma opt_quote_le: "q \<in> set (opt_quote s) \<Longrightarrow> q \<le> length s"
  unfolding opt_quote_def by (cases s) (auto split: if_splits)

lemma match_ends_le: "e \<in> set (match_ends s) \<Longrightarrow> e \<le> length s"
proof -
  assume "e \<in> set (match_ends s)"
  then obtain a q where a: "a \<in> set (group1 s)" and q: "q \<in> set (opt_quote (drop a s))"
    and e: "e = a + q"
    unfolding match_ends_def by (auto split: if_splits)
  from group1_le[OF a] opt_quote_le[OF q] e show ?thesis by simp
qed

lemma match_at_le: "match_at s = Some e \<Longrightarrow> e \<le> length s"
  unfolding match_at_def using match_ends_le[of e s] by (cases "match_ends s") auto

lemma search_end_le: "search_end s = Some e \<Longrightarrow> e \<le> length s"
proof (induction s arbitrary: e)
  case Nil
  then show ?case using match_at_le[of "[]" e] by simp
next
  case (Cons c cs)
  show ?case
  proof (cases "match_at (c # cs)")
    case None
    with Cons.prems obtain e' where "search_end cs = Some e'" and "e = Suc e'" by auto
    with Cons.IH[of e'] show ?thesis by simp
  next
    case (Some a)
    with Cons.prems have "e = a" by simp
    with Some show ?thesis using match_at_le[of "c # cs" a] by simp
  qed
qed

lemma segment_tiles: "cur \<le> length t \<Longrightarrow> tiles cur (length t) (segment excl t cur)"
proof (induction excl t cur rule: segment.induct)
  case (1 excl t cur)
  show ?case
  proof (cases "cur < length t")
    case False
    with "1.prems" show ?thesis by (simp add: segment_done)
  next
    case True
    show ?thesis
    proof (cases "search_end (drop cur t)")
      case None
      with True show ?thesis by (simp add: segment_last)
    next
      case (Some e)
      have pos: "0 < e" using Some by (rule search_end_pos)
      have le: "cur + e \<le> length t" using search_end_le[OF Some] True by simp
      have "tiles (cur + e) (length t) (segment excl t (cur + e))"
        using "1.IH"[OF True Some refl] le by simp
      with pos show ?thesis by (simp add: segment_step[OF True Some])
    qed
  qed
qed

lemma strip_Nil_iff: "strip s = [] \<longleftrightarrow> (\<forall>c\<in>set s. isspace c)"
proof
  assume "strip s = []"
  then have all: "\<forall>x\<in>set (dropWhile isspace s). isspace x"
    by (simp add: strip_def dropWhile_eq_Nil_conv)
  have "dropWhile isspace s = []"
  proof (rule ccontr)
    assume ne: "dropWhile isspace s \<noteq> []"
    then have "\<not> isspace (hd (dropWhile isspace s))" by (rule hd_dropWhile)
    moreover have "hd (dropWhile isspace s) \<in> set (dropWhile isspace s)" using ne by simp
    ultimately show False using all by blast
  qed
  then show "\<forall>c\<in>set s. isspace c" by (simp add: dropWhile_eq_Nil_conv)
next
  assume "\<forall>c\<in>set s. isspace c"
  then show "strip s = []" by (auto simp: strip_def dest: set_dropWhileD)
qed

lemma group1_head: "a \<in> set (group1 s) \<Longrightarrow> s \<noteq> [] \<and> \<not> isspace (hd s)"
  unfolding group1_def
  by (cases s) (auto simp: isspace_def split: if_splits list.splits)

lemma match_at_head: "match_at s = Some e \<Longrightarrow> s \<noteq> [] \<and> \<not> isspace (hd s)"
proof -
  assume "match_at s = Some e"
  then have "e \<in> set (match_ends s)"
    unfolding match_at_def by (cases "match_ends s") auto
  then obtain a where "a \<in> set (group1 s)"
    unfolding match_ends_def by (auto split: if_splits)
  then show ?thesis by (rule group1_head)
qed

lemma search_end_nonspace: "search_end s = Some e \<Longrightarrow> \<exists>c\<in>set (take e s). \<not> isspace c"
proof (induction s arbitrary: e)
  case Nil
  then show ?case using match_at_head[of "[]" e] by simp
next
  case (Cons c cs)
  show ?case
  proof (cases "match_at (c # cs)")
    case None
    with Cons.prems obtain e' where e': "search_end cs = Some e'" and "e = Suc e'" by auto
    with Cons.IH[OF e'] show ?thesis by auto
  next
    case (Some a)
    with Cons.prems have "e = a" by simp
    with Some match_at_head[of "c # cs" a] match_at_pos[of "c # cs" a] show ?thesis
      by (cases a) auto
  qed
qed

lemma matched_not_blank: "search_end s = Some e \<Longrightarrow> strip (take e s) \<noteq> []"
  using search_end_nonspace[of s e] by (auto simp: strip_Nil_iff)

lemma segment_blank_last:
  "c \<in> set (segment excl t cur) \<Longrightarrow> c_outcome c = Blank \<Longrightarrow> c_end c = length t \<and> c_text c = []"
proof (induction excl t cur rule: segment.induct)
  case (1 excl t cur)
  show ?case
  proof (cases "cur < length t")
    case False
    with "1.prems" show ?thesis by (simp add: segment_done)
  next
    case True
    show ?thesis
    proof (cases "search_end (drop cur t)")
      case None
      with True "1.prems" show ?thesis by (auto simp: segment_last split: if_splits)
    next
      case (Some e)
      have nb: "strip (take e (drop cur t)) \<noteq> []" using Some by (rule matched_not_blank)
      from "1.prems" nb have "c \<in> set (segment excl t (cur + e))"
        by (auto simp: segment_step[OF True Some] split: if_splits)
      then show ?thesis using "1.IH"[OF True Some refl] "1.prems"(2) by simp
    qed
  qed
qed

text \<open>
  C3. For every paragraph text, the ranges of the loop's candidates, in order,
  tile the interval from 0 to the length of the text: each candidate starts where the
  one before it ended, none is empty, and the last one ends at the length of the text.
  A candidate is returned (\<open>Kept\<close>), dropped by the exclusion policy (\<open>Excluded\<close>), or
  discarded because its stripped text is empty (\<open>Blank\<close>); a blank candidate is the
  whitespace-only remainder at the end of the text. The returned and the excluded
  ranges alone leave that remainder uncovered, as the text "Hi! " shows below.
\<close>

theorem segment_candidates_tile:
  "tiles 0 (length t) (segment excl t 0) \<and>
   (\<forall>c\<in>set (segment excl t 0). c_outcome c = Blank \<longrightarrow> c_end c = length t \<and> c_text c = [])"
  using segment_tiles[of 0 t excl] segment_blank_last[of _ excl t 0] by blast

lemma hi_segments:
  "segment (is_excluded_paragraph ascii_ucd) [72, 105, 33, 32] 0 =
     [\<lparr>c_start = 0, c_end = 3, c_text = [72, 105, 33], c_outcome = Kept\<rparr>,
      \<lparr>c_start = 3, c_end = 4, c_text = [], c_outcome = Blank\<rparr>]"
proof -
  have s0: "search_end (drop 0 [72, 105, 33, 32]) = Some 3" by (simp add: pattern_defs)
  have s3: "search_end (drop 3 [72, 105, 33, 32]) = None" by (simp add: pattern_defs)
  have ex: "\<not> is_excluded_paragraph ascii_ucd [72, 105, 33]"
    by (simp add: is_excluded_paragraph_def endswith_def matches_exclude_def
          exclude_patterns_def lits_def ascii_ucd_def)
  have st: "strip [72, 105, 33] = [72, 105, 33]" "strip [32] = []"
    by (simp_all add: strip_def isspace_def)
  show ?thesis
    using segment_step[of 0 "[72, 105, 33, 32]" 3 "is_excluded_paragraph ascii_ucd", OF _ s0]
      segment_last[of 3 "[72, 105, 33, 32]" "is_excluded_paragraph ascii_ucd", OF _ s3]
    by (simp add: ex st)
qed

text \<open>
  The text "Hi! " has a returned candidate from 0 to 3 and a blank one from 3 to 4.
\<close>

theorem segment_candidates_tile_witness:
  "\<lparr>c_start = 3, c_end = 4, c_text = [], c_outcome = Blank\<rparr>
      \<in> set (segment (is_excluded_paragraph ascii_ucd) [72, 105, 33, 32] 0) \<and>
   tiles 0 (length [72, 105, 33, 32 :: nat])
      (segment (is_excluded_paragraph ascii_ucd) [72, 105, 33, 32] 0)"
  using segment_candidates_tile[of "[72, 105, 33, 32]" "is_excluded_paragraph ascii_ucd"]
  by (simp add: hi_segments)

text \<open>
  For the same text the returned and the excluded candidates do not tile the interval
  from 0 to 4: the blank remainder is neither.
\<close>

theorem returned_and_excluded_leave_gap:
  "\<not> tiles 0 (length [72, 105, 33, 32 :: nat])
       (filter (\<lambda>c. c_outcome c = Kept \<or> c_outcome c = Excluded)
          (segment (is_excluded_paragraph ascii_ucd) [72, 105, 33, 32] 0))"
  by (simp add: hi_segments)

lemma whole_paragraph_one_sentence:
  assumes "search_end t = None" and "strip t = t" and "t \<noteq> []"
  shows "split_into_sentences U (st\<lparr>document := Some (one_paragraph t)\<rparr>) =
     ([t], st\<lparr>document := Some (one_paragraph t), sentences := [t],
              sentence_positions :=
                [\<lparr>p_loc = InParagraph 0, p_start = 0, p_end = length t, p_text = t\<rparr>]\<rparr>)"
proof -
  have seg: "segment (is_excluded_paragraph U) t 0 =
      [\<lparr>c_start = 0, c_end = length t, c_text = t, c_outcome = Kept\<rparr>]"
    using assms by (subst segment_last) simp_all
  have ptext: "para_text [plain t] = t" by (simp add: para_text_def plain_def)
  show ?thesis
    using assms by (simp add: split_into_sentences_def one_paragraph_def ptext seg)
qed

text \<open>
  C2. A paragraph whose text is the price sentence with the decimal 3.14 and the
  full-width full stop (\<open>text_price\<close>) yields exactly one catalog entry, the whole
  text from 0 to its length: the decimal point splits nothing and nothing is dropped.
  A paragraph with the text "Dr. Smith arrived." (\<open>text_dr\<close>) yields exactly one entry
  for the full sentence as well: the full stop of the abbreviation is no boundary.
\<close>

theorem decimal_and_abbreviation_one_span:
  "split_into_sentences U (st\<lparr>document := Some (one_paragraph text_price)\<rparr>) =
     ([text_price],
      st\<lparr>document := Some (one_paragraph text_price), sentences := [text_price],
         sentence_positions :=
           [\<lparr>p_loc = InParagraph 0, p_start = 0, p_end = length text_price,
             p_text = text_price\<rparr>]\<rparr>) \<and>
   split_into_sentences U (st\<lparr>document := Some (one_paragraph text_dr)\<rparr>) =
     ([text_dr],
      st\<lparr>document := Some (one_paragraph text_dr), sentences := [text_dr],
         sentence_positions :=
           [\<lparr>p_loc = InParagraph 0, p_start = 0, p_end = length text_dr,
             p_text = text_dr\<rparr>]\<rparr>)"
proof -
  have p: "search_end text_price = None" "strip text_price = text_price" "text_price \<noteq> []"
    by (simp_all add: text_price_def pattern_defs)
  have d: "search_end text_dr = None" "strip text_dr = text_dr" "text_dr \<noteq> []"
    by (simp_all add: text_dr_def pattern_defs)
  show ?thesis
    using whole_paragraph_one_sentence[OF p] whole_paragraph_one_sentence[OF d] by simp
qed




text \<open>
  The loop over table cells has no length rule: the text ". " in a table cell puts the
  sentence "." into the catalog, the same text in a top-level paragraph puts nothing.
\<close>

lemma table_short_period_kept:
  "fst (split_into_sentences U (loaded (one_cell_table [46, 32]))) = [[46]] \<and>
   fst (split_into_sentences U (loaded (one_paragraph [46, 32]))) = []"
proof -
  have h2: "search_end (drop 0 [46, 32]) = Some 2" by (simp add: pattern_defs)
  have s: "strip [46, 32] = [46]" by (simp add: strip_def isspace_def)
  have nt: "\<not> is_excluded_table U [46]"
    by (simp add: is_excluded_table_def matches_exclude_def exclude_patterns_def lits_def)
  have yp: "is_excluded_paragraph U [46]"
    by (simp add: is_excluded_paragraph_def endswith_def)
  have ptext: "para_text [plain [46, 32]] = [46, 32]" by (simp add: para_text_def plain_def)
  have t: "segment (is_excluded_table U) [46, 32] 0 =
      [\<lparr>c_start = 0, c_end = 2, c_text = [46], c_outcome = Kept\<rparr>]"
    using segment_step[of 0 "[46, 32]" 2 "is_excluded_table U", OF _ h2]
    by (simp add: segment_done s nt)
  have p: "segment (is_excluded_paragraph U) [46, 32] 0 =
      [\<lparr>c_start = 0, c_end = 2, c_text = [46], c_outcome = Excluded\<rparr>]"
    using segment_step[of 0 "[46, 32]" 2 "is_excluded_paragraph U", OF _ h2]
    by (simp add: segment_done s yp)
  show ?thesis
    by (simp add: split_into_sentences_def loaded_def one_cell_table_def one_paragraph_def
          ptext t p s)
qed

section \<open>Facts about the catalog\<close>

lemma append_kept_positions:
  "sentence_positions (append_kept l cs st) = sentence_positions st @ kept_positions l cs"
  by (induction cs arbitrary: st) (simp_all add: kept_positions_def)

lemma append_kept_sentences:
  "sentences (append_kept l cs st) = sentences st @ map p_text (kept_positions l cs)"
  by (induction cs arbitrary: st) (simp_all add: kept_positions_def)


lemma paragraphs_loop_positions:
  "sentence_positions (paragraphs_loop U i ps st) =
     sentence_positions st @ concat (map (\<lambda>(i, p). paragraph_records U i p) (enumerate i ps))"
  by (induction ps arbitrary: i st)
     (simp_all add: paragraph_records_def append_kept_positions)

lemma paragraphs_loop_sentences:
  "sentences (paragraphs_loop U i ps st) =
     sentences st @ map p_text (concat (map (\<lambda>(i, p). paragraph_records U i p) (enumerate i ps)))"
  by (induction ps arbitrary: i st)
     (simp_all add: paragraph_records_def append_kept_sentences)


lemma cell_paragraphs_loop_positions:
  "sentence_positions (cell_paragraphs_loop U t r c k ps st) =
     sentence_positions st @
     concat (map (\<lambda>(k, p). cell_paragraph_records U t r c k p) (enumerate k ps))"
  by (induction ps arbitrary: k st)
     (simp_all add: cell_paragraph_records_def append_kept_positions)

lemma cell_paragraphs_loop_sentences:
  "sentences (cell_paragraphs_loop U t r c k ps st) =
     sentences st @
     map p_text (concat (map (\<lambda>(k, p). cell_paragraph_records U t r c k p) (enumerate k ps)))"
  by (induction ps arbitrary: k st)
     (simp_all add: cell_paragraph_records_def append_kept_sentences)


lemma cells_loop_positions:
  "sentence_positions (cells_loop U t r c cls st) =
     sentence_positions st @ concat (map (\<lambda>(c, cl). cell_records U t r c cl) (enumerate c cls))"
  by (induction cls arbitrary: c st)
     (simp_all add: cell_records_def cell_paragraphs_loop_positions)

lemma cells_loop_sentences:
  "sentences (cells_loop U t r c cls st) =
     sentences st @ map p_text (concat (map (\<lambda>(c, cl). cell_records U t r c cl) (enumerate c cls)))"
  by (induction cls arbitrary: c st)
     (simp_all add: cell_records_def cell_paragraphs_loop_sentences)


lemma rows_loop_positions:
  "sentence_positions (rows_loop U t r rws st) =
     sentence_positions st @ concat (map (\<lambda>(r, rw). row_records U t r rw) (enumerate r rws))"
  by (induction rws arbitrary: r st) (simp_all add: row_records_def cells_loop_positions)

lemma rows_loop_sentences:
  "sentences (rows_loop U t r rws st) =
     sentences st @ map p_text (concat (map (\<lambda>(r, rw). row_records U t r rw) (enumerate r rws)))"
  by (induction rws arbitrary: r st) (simp_all add: row_records_def cells_loop_sentences)


lemma tables_loop_positions:
  "sentence_positions (tables_loop U t tbs st) =
     sentence_positions st @ concat (map (\<lambda>(t, tb). table_records U t tb) (enumerate t tbs))"
  by (induction tbs arbitrary: t st) (simp_all add: table_records_def rows_loop_positions)

lemma tables_loop_sentences:
  "sentences (tables_loop U t tbs st) =
     sentences st @ map p_text (concat (map (\<lambda>(t, tb). table_records U t tb) (enumerate t tbs)))"
  by (induction tbs arbitrary: t st) (simp_all add: table_records_def rows_loop_sentences)


lemma split_positions:
  "document st = Some doc \<Longrightarrow>
   sentence_positions (snd (split_into_sentences U st)) = document_records U doc"
  by (simp add: split_into_sentences_def Let_def document_records_def
        tables_loop_positions paragraphs_loop_positions)

lemma split_sentences:
  "document st = Some doc \<Longrightarrow>
   fst (split_into_sentences U st) = map p_text (document_records U doc) \<and>
   sentences (snd (split_into_sentences U st)) = map p_text (document_records U doc)"
  by (simp add: split_into_sentences_def Let_def document_records_def
        tables_loop_sentences paragraphs_loop_sentences)


text \<open>
  C4. For a document with the top-level paragraphs P0 and P1 and one table with one row
  and one cell holding the paragraph P2, the catalog lists the sentences of P0, then
  those of P1, then those of P2 in table 0, row 0, cell 0. In general the catalog of a
  document is \<open>document_records\<close>: the records of the top-level paragraphs in document
  order, followed by those of the tables in document order, each table row by row, each
  row cell by cell, each cell paragraph by paragraph; the returned sentence list is the
  list of the records' texts, so the index of a sentence is its place in this order.
\<close>

theorem catalog_order:
  "sentence_positions (snd (split_into_sentences U
       (st\<lparr>document := Some \<lparr>paragraphs = [P0, P1], tables = [[[[P2]]]]\<rparr>\<rparr>))) =
     paragraph_records U 0 P0 @ paragraph_records U 1 P1 @
     cell_paragraph_records U 0 0 0 0 P2 \<and>
   sentence_positions (snd (split_into_sentences U (st\<lparr>document := Some doc\<rparr>))) =
     document_records U doc \<and>
   fst (split_into_sentences U (st\<lparr>document := Some doc\<rparr>)) =
     map p_text (document_records U doc)"
proof -
  have "document_records U \<lparr>paragraphs = [P0, P1], tables = [[[[P2]]]]\<rparr> =
      paragraph_records U 0 P0 @ paragraph_records U 1 P1 @
      cell_paragraph_records U 0 0 0 0 P2"
    by (simp add: document_records_def table_records_def row_records_def cell_records_def)
  then show ?thesis
    by (simp add: split_positions split_sentences)
qed

section \<open>Facts about annotation\<close>

lemma py_index_nat: "py_index xs (int k) = (if k < length xs then Inr (xs ! k) else Inl IndexError)"
  by (simp add: py_index_def)

lemma lookup_store:
  "lookup_paragraph doc l = Inr p \<Longrightarrow> lookup_paragraph (store_paragraph doc l q) l = Inr q"
  by (cases l)
     (auto simp: lookup_paragraph_def store_paragraph_def py_index_nat
           split: if_splits sum.splits)


lemma para_text_annotated:
  "para_text (add_comment_to_paragraph p a b c) = para_text p @ [32] @ suggestion c"
  by (simp add: add_comment_to_paragraph_def para_text_def plain_def Let_def)









lemma hi_yo_catalog:
  "split_into_sentences ascii_ucd (loaded (one_paragraph text_hi_yo)) =
     ([[72, 105, 33], [89, 111, 33]],
      (loaded (one_paragraph text_hi_yo))
        \<lparr>sentences := [[72, 105, 33], [89, 111, 33]],
         sentence_positions :=
           [\<lparr>p_loc = InParagraph 0, p_start = 0, p_end = 3, p_text = [72, 105, 33]\<rparr>,
            \<lparr>p_loc = InParagraph 0, p_start = 3, p_end = 7, p_text = [89, 111, 33]\<rparr>]\<rparr>)"
proof -
  have s0: "search_end (drop 0 [72, 105, 33, 32, 89, 111, 33]) = Some 3"
    and s3: "search_end (drop 3 [72, 105, 33, 32, 89, 111, 33]) = Some 4"
    by (simp_all add: pattern_defs)
  have ex: "\<not> is_excluded_paragraph ascii_ucd [72, 105, 33]"
      "\<not> is_excluded_paragraph ascii_ucd [89, 111, 33]"
    by (simp_all add: is_excluded_paragraph_def endswith_def matches_exclude_def
          exclude_patterns_def lits_def ascii_ucd_def)
  have sp: "strip [72, 105, 33] = [72, 105, 33]" "strip [32, 89, 111, 33] = [89, 111, 33]"
      "strip [72, 105, 33, 32, 89, 111, 33] \<noteq> []"
    by (simp_all add: strip_def isspace_def)
  have seg: "segment (is_excluded_paragraph ascii_ucd) [72, 105, 33, 32, 89, 111, 33] 0 =
      [\<lparr>c_start = 0, c_end = 3, c_text = [72, 105, 33], c_outcome = Kept\<rparr>,
       \<lparr>c_start = 3, c_end = 7, c_text = [89, 111, 33], c_outcome = Kept\<rparr>]"
    using segment_step[of 0 "[72, 105, 33, 32, 89, 111, 33]" 3
        "is_excluded_paragraph ascii_ucd", OF _ s0]
      segment_step[of 3 "[72, 105, 33, 32, 89, 111, 33]" 4
        "is_excluded_paragraph ascii_ucd", OF _ s3]
      segment_done[of 7 "[72, 105, 33, 32, 89, 111, 33]" "is_excluded_paragraph ascii_ucd"]
    by (simp add: sp ex)
  have ptext: "para_text [plain [72, 105, 33, 32, 89, 111, 33]] = [72, 105, 33, 32, 89, 111, 33]"
    by (simp add: para_text_def plain_def)
  show ?thesis
    by (simp add: split_into_sentences_def loaded_def one_paragraph_def text_hi_yo_def
          ptext seg sp)
qed


lemma annotated_differs: "add_comment_to_paragraph p a b c \<noteq> p"
proof
  assume "add_comment_to_paragraph p a b c = p"
  then have "para_text (add_comment_to_paragraph p a b c) = para_text p" by simp
  then show False by (simp add: para_text_annotated suggestion_def)
qed

text \<open>
  C10. With \<open>n\<close> catalogued records, \<open>add_comment\<close> returns \<open>False\<close> and
  leaves the state as it is for every index \<open>i \<ge> n\<close> and for every index \<open>i < -n\<close>
  (the first by the guard, the second by the \<open>IndexError\<close> that the handler turns into
  \<open>False\<close>). An index with \<open>-n \<le> i < 0\<close> is not rejected: it resolves to the record
  \<open>n + i\<close>, counted from the end, and where that record's locator resolves the call
  returns \<open>True\<close> and replaces the paragraph by an annotated one that differs from it.
\<close>

theorem add_comment_index_range:
  "(int (length (sentence_positions st)) \<le> i \<longrightarrow> add_comment st i c = (False, st)) \<and>
   (i < - int (length (sentence_positions st)) \<longrightarrow> add_comment st i c = (False, st)) \<and>
   (- int (length (sentence_positions st)) \<le> i \<and> i < 0 \<and>
    document st = Some doc \<and>
    length (sentences st) = length (sentence_positions st) \<and>
    pos = sentence_positions st ! nat (int (length (sentence_positions st)) + i) \<and>
    lookup_paragraph doc (p_loc pos) = Inr p \<longrightarrow>
      add_comment st i c =
        (True, st\<lparr>document := Some (store_paragraph doc (p_loc pos)
           (add_comment_to_paragraph p (p_start pos) (p_end pos) c))\<rparr>) \<and>
      lookup_paragraph
        (store_paragraph doc (p_loc pos) (add_comment_to_paragraph p (p_start pos) (p_end pos) c))
        (p_loc pos) = Inr (add_comment_to_paragraph p (p_start pos) (p_end pos) c) \<and>
      add_comment_to_paragraph p (p_start pos) (p_end pos) c \<noteq> p)"
proof (intro conjI impI)
  assume "int (length (sentence_positions st)) \<le> i"
  then show "add_comment st i c = (False, st)"
    by (cases "document st") (simp_all add: add_comment_def)
next
  assume "i < - int (length (sentence_positions st))"
  then show "add_comment st i c = (False, st)"
    by (cases "document st") (simp_all add: add_comment_def py_index_def)
next
  assume a: "- int (length (sentence_positions st)) \<le> i \<and> i < 0 \<and>
    document st = Some doc \<and>
    length (sentences st) = length (sentence_positions st) \<and>
    pos = sentence_positions st ! nat (int (length (sentence_positions st)) + i) \<and>
    lookup_paragraph doc (p_loc pos) = Inr p"
  then have lo: "- int (length (sentence_positions st)) \<le> i" and hi: "i < 0"
    and d: "document st = Some doc"
    and n: "length (sentences st) = length (sentence_positions st)"
    and lp: "lookup_paragraph doc (p_loc pos) = Inr p"
    and pos: "pos = sentence_positions st ! nat (int (length (sentence_positions st)) + i)"
    by blast+
  have pi: "py_index (sentence_positions st) i = Inr pos"
    using lo hi pos by (simp add: py_index_def)
  have si: "\<exists>s. py_index (sentences st) i = Inr s"
    using lo hi n by (simp add: py_index_def)
  have g: "\<not> int (length (sentence_positions st)) \<le> i" using hi by simp
  from si obtain s where s: "py_index (sentences st) i = Inr s" by blast
  show "add_comment st i c =
        (True, st\<lparr>document := Some (store_paragraph doc (p_loc pos)
           (add_comment_to_paragraph p (p_start pos) (p_end pos) c))\<rparr>)"
    unfolding add_comment_def by (simp only: d option.case g if_False pi sum.case lp Let_def s)
  from lp show "lookup_paragraph
        (store_paragraph doc (p_loc pos) (add_comment_to_paragraph p (p_start pos) (p_end pos) c))
        (p_loc pos) = Inr (add_comment_to_paragraph p (p_start pos) (p_end pos) c)"
    by (rule lookup_store)
  show "add_comment_to_paragraph p (p_start pos) (p_end pos) c \<noteq> p"
    by (rule annotated_differs)
qed

lemma catalog_hi_yo_eq:
  "catalog_hi_yo =
     \<lparr>file_path = Some [100, 46, 100, 111, 99, 120],
      document = Some (one_paragraph text_hi_yo),
      sentences = [[72, 105, 33], [89, 111, 33]],
      sentence_positions =
        [\<lparr>p_loc = InParagraph 0, p_start = 0, p_end = 3, p_text = [72, 105, 33]\<rparr>,
         \<lparr>p_loc = InParagraph 0, p_start = 3, p_end = 7, p_text = [89, 111, 33]\<rparr>]\<rparr>"
  unfolding catalog_hi_yo_def hi_yo_catalog by (simp add: loaded_def)

text \<open>
  With the two records of "Hi! Yo!": the indices 2 and -3 are refused and leave the
  state alone, the index -1 annotates the paragraph of the last record.
\<close>

theorem add_comment_index_range_witness:
  "add_comment catalog_hi_yo 2 [97] = (False, catalog_hi_yo) \<and>
   add_comment catalog_hi_yo (- 3) [97] = (False, catalog_hi_yo) \<and>
   add_comment catalog_hi_yo (- 1) [97] =
     (True, catalog_hi_yo\<lparr>document := Some \<lparr>paragraphs =
        [add_comment_to_paragraph [plain text_hi_yo] 3 7 [97]], tables = []\<rparr>\<rparr>) \<and>
   add_comment_to_paragraph [plain text_hi_yo] 3 7 [97] \<noteq> [plain text_hi_yo]"
proof -
  have n: "length (sentence_positions catalog_hi_yo) = 2"
    and d: "document catalog_hi_yo = Some (one_paragraph text_hi_yo)"
    and s: "length (sentences catalog_hi_yo) = 2"
    and p: "sentence_positions catalog_hi_yo ! Suc 0 =
       \<lparr>p_loc = InParagraph 0, p_start = 3, p_end = 7, p_text = [89, 111, 33]\<rparr>"
    by (simp_all add: catalog_hi_yo_eq)
  have l: "lookup_paragraph (one_paragraph text_hi_yo) (InParagraph 0) = Inr [plain text_hi_yo]"
    by (simp add: lookup_paragraph_def one_paragraph_def py_index_def)
  show ?thesis
    using add_comment_index_range[where st = catalog_hi_yo and i = 2 and c = "[97]"]
      add_comment_index_range[where st = catalog_hi_yo and i = "- 3" and c = "[97]"]
      add_comment_index_range[where st = catalog_hi_yo and i = "- 1" and c = "[97]"
        and doc = "one_paragraph text_hi_yo" and p = "[plain text_hi_yo]"
        and pos = "\<lparr>p_loc = InParagraph 0, p_start = 3, p_end = 7, p_text = [89, 111, 33]\<rparr>"]
    by (simp add: n d s p l l[unfolded one_paragraph_def] store_paragraph_def
          one_paragraph_def)
qed

text \<open>A negative index that is rejected: -3 with two records.\<close>

theorem negative_index_below_range_rejected:
  "(- 3 :: int) < 0 \<and> add_comment catalog_hi_yo (- 3) [97] = (False, catalog_hi_yo)"
  by (simp add: add_comment_def py_index_def catalog_hi_yo_eq)

section \<open>Facts about paths and saving\<close>

lemma rfind_last: "c \<notin> set b \<Longrightarrow> rfind (a @ [c] @ b) c = int (length a)"
proof -
  assume nb: "c \<notin> set b"
  have "takeWhile (\<lambda>x. x \<noteq> c) (rev b @ c # rev a) = takeWhile (\<lambda>x. x \<noteq> c) (rev b)"
    by (simp add: takeWhile_tail)
  moreover have "takeWhile (\<lambda>x. x \<noteq> c) (rev b) = rev b"
    using nb by (auto simp: takeWhile_eq_all_conv)
  ultimately show ?thesis by (simp add: rfind_def)
qed

lemma nat_int_Suc: "nat (int n + 1) = Suc n"
  by simp

lemma rfind_none: "c \<notin> set s \<Longrightarrow> rfind s c = - 1"
  by (simp add: rfind_def)

lemma splitext_name:
  assumes "47 \<notin> set stem" and "47 \<notin> set e" and "46 \<notin> set e" and "\<exists>c\<in>set stem. c \<noteq> 46"
  shows "splitext (stem @ [46] @ e) = (stem, [46] @ e)"
proof -
  have s: "rfind (stem @ [46] @ e) 47 = - 1"
    using assms(1,2) by (simp add: rfind_none)
  have d: "rfind (stem @ [46] @ e) 46 = int (length stem)"
    using assms(3) by (rule rfind_last)
  have "list_ex (\<lambda>x. x \<noteq> 46) stem" using assms(4) by (simp add: list_ex_iff)
  then show ?thesis
    unfolding splitext_def s d by (simp add: Let_def nat_int_Suc)
qed

lemma basename_plain: "47 \<notin> set f \<Longrightarrow> basename f = f \<and> dirname f = []"
  by (simp add: basename_def dirname_def rfind_none Let_def)

lemma basename_dir:
  assumes "47 \<notin> set f" and "d \<noteq> []" and "last d \<noteq> 47"
  shows "basename (d @ [47] @ f) = f \<and> dirname (d @ [47] @ f) = d"
proof -
  have r: "rfind (d @ [47] @ f) 47 = int (length d)"
    using assms(1) by (rule rfind_last)
  have b: "basename (d @ [47] @ f) = f"
    unfolding basename_def r by (simp add: Let_def nat_int_Suc)
  have "d \<in> set [d]" by simp
  have nall: "d @ [47] \<noteq> replicate (Suc (length d)) 47"
  proof
    assume "d @ [47] = replicate (Suc (length d)) 47"
    then have "set (d @ [47]) \<subseteq> {47}" by (metis set_replicate_conv_if subset_insertI subset_refl)
    then have "last d = 47" using assms(2) by (metis Un_subset_iff last_in_set set_append singletonD subsetD)
    with assms(3) show False by simp
  qed
  have st: "rstrip_char 47 (d @ [47]) = d"
  proof -
    have "dropWhile (\<lambda>x. x = 47) (rev d) = rev d"
      using assms(2,3) by (cases "rev d") (auto simp: last_rev[symmetric] hd_rev)
    then show ?thesis by (simp add: rstrip_char_def)
  qed
  have "dirname (d @ [47] @ f) = d"
    unfolding dirname_def r using nall st by (simp add: Let_def nat_int_Suc)
  with b show ?thesis by simp
qed

lemma digit_range: "48 \<le> digit n \<and> digit n \<le> 57"
proof -
  have "n mod 10 < 10" by simp
  then show ?thesis unfolding digit_def by linarith
qed

lemma strftime_form:
  "length (strftime t) = 14 \<and> (\<forall>c\<in>set (strftime t). 48 \<le> c \<and> c \<le> 57)"
  using digit_range by (simp add: strftime_def digits2_def digits4_def)

lemma default_output_path_parts:
  "basename path = file_name \<Longrightarrow> dirname path = file_dir \<Longrightarrow>
   splitext file_name = (name, ext) \<Longrightarrow>
   default_output_path env path =
     (if path_exists env (join file_dir (name @ ai_suffix @ ext))
      then join file_dir (name @ ai_suffix @ [95] @ strftime (now env) @ ext)
      else join file_dir (name @ ai_suffix @ ext))"
  by (simp add: default_output_path_def Let_def)

lemma join_empty: "\<not> startswith b [47] \<Longrightarrow> join [] b = b"
  by (simp add: join_def)

lemma not_endswith_slash: "d \<noteq> [] \<Longrightarrow> last d \<noteq> 47 \<Longrightarrow> \<not> endswith d [47]"
proof
  assume d: "d \<noteq> []" "last d \<noteq> 47" and e: "endswith d [47]"
  from d(1) obtain ys y where ys: "d = ys @ [y]" by (metis rev_exhaust)
  with e have "y = 47" by (simp add: endswith_def)
  with ys d(2) show False by simp
qed

lemma join_dir:
  "d \<noteq> [] \<Longrightarrow> last d \<noteq> 47 \<Longrightarrow> \<not> startswith b [47] \<Longrightarrow> join d b = d @ [47] @ b"
  using not_endswith_slash[of d] by (simp add: join_def)

lemma not_startswith_slash: "stem \<noteq> [] \<Longrightarrow> 47 \<notin> set stem \<Longrightarrow> \<not> startswith (stem @ x) [47]"
  by (cases stem) (auto simp: startswith_def)

lemma default_output_path_eq:
  assumes "47 \<notin> set stem" and "47 \<notin> set e" and "46 \<notin> set e" and "\<exists>c\<in>set stem. c \<noteq> 46"
    and "pre = [] \<or> (\<exists>d. pre = d @ [47] \<and> d \<noteq> [] \<and> last d \<noteq> 47)"
  shows "default_output_path env (pre @ stem @ [46] @ e) =
           (if path_exists env (pre @ stem @ ai_suffix @ [46] @ e)
            then pre @ stem @ ai_suffix @ [95] @ strftime (now env) @ [46] @ e
            else pre @ stem @ ai_suffix @ [46] @ e)"
proof -
  define f where "f = stem @ [46] @ e"
  define ext where "ext = [46] @ e"
  let ?b1 = "stem @ ai_suffix @ ext"
  let ?b2 = "stem @ ai_suffix @ [95] @ strftime (now env) @ ext"
  have f: "47 \<notin> set f" using assms(1,2) by (simp add: f_def)
  have sp: "splitext f = (stem, ext)"
    unfolding f_def ext_def using assms(1-4) by (rule splitext_name)
  have ne: "stem \<noteq> []" using assms(4) by auto
  have ns1: "\<not> startswith ?b1 [47]" by (rule not_startswith_slash[OF ne assms(1)])
  have ns2: "\<not> startswith ?b2 [47]" by (rule not_startswith_slash[OF ne assms(1)])
  from assms(5) have "default_output_path env (pre @ f) =
      (if path_exists env (pre @ ?b1) then pre @ ?b2 else pre @ ?b1)"
  proof
    assume p: "pre = []"
    have "basename f = f" "dirname f = []" using basename_plain[OF f] by simp_all
    from default_output_path_parts[OF this sp, of env]
    show ?thesis by (simp only: p join_empty[OF ns1] join_empty[OF ns2] append_Nil)
  next
    assume "\<exists>d. pre = d @ [47] \<and> d \<noteq> [] \<and> last d \<noteq> 47"
    then obtain d where p: "pre = d @ [47]" and d: "d \<noteq> []" "last d \<noteq> 47" by blast
    have "basename (d @ [47] @ f) = f" "dirname (d @ [47] @ f) = d"
      using basename_dir[OF f d] by simp_all
    from default_output_path_parts[OF this sp, of env]
    have "default_output_path env (d @ [47] @ f) =
        (if path_exists env (d @ [47] @ ?b1) then d @ [47] @ ?b2 else d @ [47] @ ?b1)"
      by (simp only: join_dir[OF d ns1] join_dir[OF d ns2])
    then show ?thesis by (simp add: p)
  qed
  then show ?thesis by (simp add: f_def ext_def)
qed

text \<open>
  C7. Without an explicit output path, a loaded document whose file path is a
  directory prefix (empty, or a directory and a slash), a name and an extension is saved
  to the same prefix and name with the marker of the source (\<open>ai_suffix\<close>: an
  underscore, "AI" and the two characters U+6821 U+5BF9) put before the extension; when
  a file exists at that path, an underscore and the time stamp, fourteen digits for
  year, month, day, hour, minute and second, follow the marker. The marker is not
  "_proofed".
\<close>

theorem save_default_path:
  assumes "47 \<notin> set stem" and "47 \<notin> set e" and "46 \<notin> set e" and "\<exists>c\<in>set stem. c \<noteq> 46"
    and "pre = [] \<or> (\<exists>d. pre = d @ [47] \<and> d \<noteq> [] \<and> last d \<noteq> 47)"
    and "document st = Some doc" and "file_path st = Some (pre @ stem @ [46] @ e)"
  shows "save_document env None st =
           (let target =
              (if path_exists env (pre @ stem @ ai_suffix @ [46] @ e)
               then pre @ stem @ ai_suffix @ [95] @ strftime (now env) @ [46] @ e
               else pre @ stem @ ai_suffix @ [46] @ e)
            in if doc_save env doc target then Inr target else Inl SaveFailed) \<and>
         length (strftime (now env)) = 14 \<and>
         (\<forall>c\<in>set (strftime (now env)). 48 \<le> c \<and> c \<le> 57)"
proof -
  have "save_document env None st =
      (if doc_save env doc (default_output_path env (pre @ stem @ [46] @ e))
       then Inr (default_output_path env (pre @ stem @ [46] @ e)) else Inl SaveFailed)"
    using assms(6,7) by (simp add: save_document_def)
  then show ?thesis
    unfolding default_output_path_eq[OF assms(1-5)] using strftime_form[of "now env"]
    by (simp add: Let_def)
qed

text \<open>
  The file d.docx, with and without an existing file at the default path, and the
  file t/d.docx.
\<close>

theorem save_default_path_witness:
  "save_document (storage_example False) None (loaded (one_paragraph text_dr)) =
     Inr [100, 95, 65, 73, 26657, 23545, 46, 100, 111, 99, 120] \<and>
   save_document (storage_example True) None (loaded (one_paragraph text_dr)) =
     Inr ([100, 95, 65, 73, 26657, 23545, 95] @
          [50, 48, 50, 53, 48, 51, 48, 57, 49, 52, 48, 53, 48, 55] @ [46, 100, 111, 99, 120]) \<and>
   save_document (storage_example False) None
       ((loaded (one_paragraph text_dr))\<lparr>file_path := Some [116, 47, 100, 46, 100, 111, 99, 120]\<rparr>) =
     Inr [116, 47, 100, 95, 65, 73, 26657, 23545, 46, 100, 111, 99, 120]"
proof -
  have h: "47 \<notin> set [100::nat]" "47 \<notin> set [100, 111, 99, 120 :: nat]"
      "46 \<notin> set [100, 111, 99, 120 :: nat]" "\<exists>c\<in>set [100::nat]. c \<noteq> 46"
    by simp_all
  have p0: "([]::ustr) = [] \<or> (\<exists>d. ([]::ustr) = d @ [47] \<and> d \<noteq> [] \<and> last d \<noteq> 47)"
    by simp
  have p1: "[116, 47] = [] \<or> (\<exists>d. [116, 47 :: nat] = d @ [47] \<and> d \<noteq> [] \<and> last d \<noteq> 47)"
    by (rule disjI2, rule exI[of _ "[116]"]) simp
  have d: "document (loaded (one_paragraph text_dr)) = Some (one_paragraph text_dr)"
    and f0: "file_path (loaded (one_paragraph text_dr)) = Some ([] @ [100] @ [46] @ [100, 111, 99, 120])"
    by (simp_all add: loaded_def)
  have d1: "document ((loaded (one_paragraph text_dr))\<lparr>file_path := Some [116, 47, 100, 46, 100, 111, 99, 120]\<rparr>)
      = Some (one_paragraph text_dr)"
    and f1: "file_path ((loaded (one_paragraph text_dr))\<lparr>file_path := Some [116, 47, 100, 46, 100, 111, 99, 120]\<rparr>)
      = Some ([116, 47] @ [100] @ [46] @ [100, 111, 99, 120])"
    by (simp_all add: loaded_def)
  have t: "strftime (now (storage_example True)) =
      [50, 48, 50, 53, 48, 51, 48, 57, 49, 52, 48, 53, 48, 55]"
    by (simp add: storage_example_def strftime_def digits4_def digits2_def digit_def)
  show ?thesis
    using save_default_path[OF h p0 d f0, of "storage_example False"]
      save_default_path[OF h p0 d f0, of "storage_example True"]
      save_default_path[OF h p1 d1 f1, of "storage_example False"]
    by (simp add: t ai_suffix_def) (simp add: storage_example_def)
qed

text \<open>The default path for d.docx carries the marker of the source, not "_proofed".\<close>

theorem default_suffix_is_not_proofed:
  "default_output_path (storage_example False) [100, 46, 100, 111, 99, 120] =
     [100, 95, 65, 73, 26657, 23545, 46, 100, 111, 99, 120] \<and>
   default_output_path (storage_example False) [100, 46, 100, 111, 99, 120] \<noteq>
     [100, 95, 112, 114, 111, 111, 102, 101, 100, 46, 100, 111, 99, 120]"
proof -
  have h: "47 \<notin> set [100::nat]" "47 \<notin> set [100, 111, 99, 120 :: nat]"
      "46 \<notin> set [100, 111, 99, 120 :: nat]" "\<exists>c\<in>set [100::nat]. c \<noteq> 46"
    by simp_all
  have p0: "([]::ustr) = [] \<or> (\<exists>d. ([]::ustr) = d @ [47] \<and> d \<noteq> [] \<and> last d \<noteq> 47)"
    by simp
  show ?thesis
    using default_output_path_eq[OF h p0, of "storage_example False"]
    by (simp add: ai_suffix_def storage_example_def)
qed

section \<open>Facts about the classification client\<close>


lemma all_in_object_missing:
  "k \<in> set ks \<Longrightarrow> map_of kvs k = None \<Longrightarrow> all_in ks (JObj kvs) = Inr False"
  by (induction ks) (auto simp: py_in_def split: bool.splits)



text \<open>
  C8. The check of the four required fields is \<open>key in result\<close>, which for a list is
  membership and for a string is containment. A reply whose content parses to the JSON
  array of the four key names has no field at all (reading any of the four keys from it
  raises \<open>TypeError\<close>), yet \<open>proofread_sentence\<close> returns it as a success.
\<close>

theorem array_reply_accepted:
  "proofread_sentence array_loads array_response [97] = Inr array_reply \<and>
   list_all (\<lambda>k. py_getitem array_reply k = Inl TypeError) required_keys"
proof -
  have hc: "has_choices (JObj [([99, 104, 111, 105, 99, 101, 115],
        JArr [JObj [([109, 101, 115, 115, 97, 103, 101],
          JObj [([99, 111, 110, 116, 101, 110, 116], JStr array_content)])]])]) = Inr True"
    by (simp add: has_choices_def py_in_def py_getitem_def py_len_def)
  have ec: "extract_content (JObj [([99, 104, 111, 105, 99, 101, 115],
        JArr [JObj [([109, 101, 115, 115, 97, 103, 101],
          JObj [([99, 111, 110, 116, 101, 110, 116], JStr array_content)])]])])
      = Inr (JStr array_content)"
    by (simp add: extract_content_def py_getitem_def py_first_def py_index_def)
  have st: "strip array_content = array_content"
    by (simp add: array_content_def strip_def isspace_def)
  have nf: "\<not> startswith array_content [96, 96, 96]"
    by (simp add: array_content_def startswith_def)
  have pc: "parse_content array_loads array_content = Some array_reply"
    by (simp add: parse_content_def st nf array_loads_def)
  have ai: "all_in required_keys array_reply = Inr True"
    by (simp add: required_keys_def array_reply_def py_in_def)
  have s: "strip [97] \<noteq> []" by (simp add: strip_def isspace_def)
  have "proofread_sentence array_loads array_response [97] = Inr array_reply"
    by (simp add: proofread_sentence_def array_response_def s hc ec pc ai)
  moreover have "list_all (\<lambda>k. py_getitem array_reply k = Inl TypeError) required_keys"
    by (simp add: required_keys_def array_reply_def py_getitem_def)
  ultimately show ?thesis by simp
qed

text \<open>A parsed content that is an object and lacks one of the four keys is refused.\<close>

lemma object_missing_field_rejected:
  assumes "strip sentence \<noteq> []"
    and "has_choices rd = Inr True" and "extract_content rd = Inr (JStr content)"
    and "parse_content loads content = Some (JObj kvs)"
    and "k \<in> set required_keys" and "map_of kvs k = None"
  shows "proofread_sentence loads (Response 200 (Some rd)) sentence = Inl BadFormat"
  using assms all_in_object_missing[OF assms(5,6)]
  by (simp add: proofread_sentence_def)

section \<open>Facts about the run\<close>










end
